theory Spec2Isabelle
  imports Main "HOL-Library.Sublist"
begin

section \<open>JavaScript string primitives used by the plugin\<close>

text \<open>
  A JavaScript string is modelled as a \<^typ>\<open>string\<close>, one \<^typ>\<open>char\<close> per code unit.
  Indices are \<^typ>\<open>int\<close>, because \<open>indexOf\<close> answers \<open>-1\<close> for "not found" and the
  plugin feeds that answer straight back into \<open>substring\<close>.
\<close>

text \<open>\<open>s.startsWith(p)\<close> and \<open>s.endsWith(p)\<close>.\<close>

definition startsWith :: "string \<Rightarrow> string \<Rightarrow> bool" where
  "startsWith s p = prefix p s"

definition endsWith :: "string \<Rightarrow> string \<Rightarrow> bool" where
  "endsWith s p = suffix p s"

text \<open>
  \<open>s.indexOf(p)\<close>: the least position at which \<open>p\<close> occurs in \<open>s\<close>, or \<open>-1\<close>.
  The second argument of \<open>indexOf_from\<close> counts the code units already passed.
\<close>

fun indexOf_from :: "string \<Rightarrow> string \<Rightarrow> nat \<Rightarrow> int" where
  "indexOf_from [] p k = (if p = [] then int k else - 1)"
| "indexOf_from (c # cs) p k =
     (if prefix p (c # cs) then int k else indexOf_from cs p (Suc k))"

definition indexOf :: "string \<Rightarrow> string \<Rightarrow> int" where
  "indexOf s p = indexOf_from s p 0"

text \<open>
  \<open>s.lastIndexOf(p)\<close>: the greatest position at which \<open>p\<close> occurs in \<open>s\<close>, or \<open>-1\<close>.
  The scan keeps the latest hit seen so far.
\<close>

fun lastIndexOf_from :: "string \<Rightarrow> string \<Rightarrow> nat \<Rightarrow> int \<Rightarrow> int" where
  "lastIndexOf_from [] p k best = (if p = [] then int k else best)"
| "lastIndexOf_from (c # cs) p k best =
     lastIndexOf_from cs p (Suc k) (if prefix p (c # cs) then int k else best)"

definition lastIndexOf :: "string \<Rightarrow> string \<Rightarrow> int" where
  "lastIndexOf s p = lastIndexOf_from s p 0 (- 1)"

text \<open>
  \<open>s.substring(a, b)\<close>: both arguments are clamped into \<open>0 .. length s\<close>, and then
  swapped when the first exceeds the second.
\<close>

definition substring :: "string \<Rightarrow> int \<Rightarrow> int \<Rightarrow> string" where
  "substring s a b =
     (let n = int (length s);
          a' = min (max a 0) n;
          b' = min (max b 0) n;
          lo = min a' b';
          hi = max a' b'
      in take (nat (hi - lo)) (drop (nat lo) s))"

text \<open>
  \<open>s.replace(pat, repl)\<close> with a string pattern rewrites the first occurrence of
  \<open>pat\<close> only, and the replacement text is a template: \<open>$$\<close> stands for one dollar
  sign, \<open>$&\<close> for the matched text, \<open>$`\<close> for the text before the match and
  \<open>$'\<close> for the text after it. A string pattern has no capture groups, so every other
  use of the dollar sign is copied as it is.
\<close>

fun GetSubstitution :: "string \<Rightarrow> string \<Rightarrow> string \<Rightarrow> string \<Rightarrow> string" where
  "GetSubstitution matched pre post [] = []"
| "GetSubstitution matched pre post [c] = [c]"
| "GetSubstitution matched pre post (c # d # r) =
     (if c = CHR ''$'' \<and> d = CHR ''$'' then CHR ''$'' # GetSubstitution matched pre post r
      else if c = CHR ''$'' \<and> d = CHR ''&'' then matched @ GetSubstitution matched pre post r
      else if c = CHR ''$'' \<and> d = CHR 0x60 then pre @ GetSubstitution matched pre post r
      else if c = CHR ''$'' \<and> d = CHR 0x27 then post @ GetSubstitution matched pre post r
      else c # GetSubstitution matched pre post (d # r))"

definition replace :: "string \<Rightarrow> string \<Rightarrow> string \<Rightarrow> string" where
  "replace s pat repl =
     (let pos = indexOf s pat
      in if pos < 0 then s
         else (let pre = take (nat pos) s;
                   post = drop (nat pos + length pat) s
               in pre @ GetSubstitution pat pre post repl @ post))"

section \<open>The development-channel listener\<close>

text \<open>
  \<open>configureServer\<close> registers one handler for the event \<open>my:from-client\<close>. The handler
  reads \<open>data.msg ?? ''\<close>, cuts it at the first and the last colon, and runs two editor
  commands: the second from the completion callback of the first. The model returns the
  command lines in the order in which they are issued; reading \<open>msg\<close> of a missing
  payload is a \<open>TypeError\<close>.
\<close>

definition parse_file :: "string \<Rightarrow> string" where
  "parse_file msg = substring msg 0 (indexOf msg '':'')"

definition parse_row :: "string \<Rightarrow> string" where
  "parse_row msg =
     (let r = substring msg (indexOf msg '':'' + 1) (lastIndexOf msg '':'')
      in if r = [] then ''0'' else r)"

record ws_payload =
  msg :: "string option"

datatype error = TypeError | EISDIR

definition from_client_handler :: "ws_payload option \<Rightarrow> error + string list" where
  "from_client_handler data =
     (case data of
        None \<Rightarrow> Inl TypeError
      | Some d \<Rightarrow>
          (let m = (case msg d of None \<Rightarrow> [] | Some t \<Rightarrow> t);
               file = parse_file m;
               row = parse_row m
           in Inr [''nvim --server ~/.cache/nvim/server.pipe --remote '' @ file,
                   ''nvim --server ~/.cache/nvim/server.pipe --remote-send '' @ [CHR 0x27]
                     @ row @ ''<s-g>'' @ [CHR 0x27]]))"

section \<open>JavaScript values and objects\<close>

text \<open>
  The option objects hold strings, booleans and nested objects. An object is the list
  of its own properties in creation order; a property may be present with the value
  \<open>undefined\<close>, which is not the same as the property being absent. Numbers, arrays
  and functions do not occur in \<open>InspectorOptions\<close> and are left out, and so are
  property names that are array indices, which JavaScript lists first.
\<close>

datatype jsval =
    JUndefined
  | JNull
  | JBool bool
  | JString string
  | JObject "(string \<times> jsval) list"

type_synonym jsobject = "(string \<times> jsval) list"

text \<open>Truthiness, as tested by \<open>!x\<close>, \<open>x && y\<close> and \<open>if (x)\<close>.\<close>

fun truthy :: "jsval \<Rightarrow> bool" where
  "truthy JUndefined = False"
| "truthy JNull = False"
| "truthy (JBool b) = b"
| "truthy (JString s) = (s \<noteq> [])"
| "truthy (JObject kvs) = True"

text \<open>
  \<open>ToString\<close>, applied by \<open>endsWith\<close> to its argument. A plain object without a
  \<open>toString\<close> or \<open>valueOf\<close> property of its own prints as \<open>[object Object]\<close>.
\<close>

fun to_string :: "jsval \<Rightarrow> string" where
  "to_string JUndefined = ''undefined''"
| "to_string JNull = ''null''"
| "to_string (JBool b) = (if b then ''true'' else ''false'')"
| "to_string (JString s) = s"
| "to_string (JObject kvs) = ''[object Object]''"

text \<open>\<open>obj.k\<close>: the value of the property, \<open>undefined\<close> when there is none.\<close>

fun get_prop :: "jsobject \<Rightarrow> string \<Rightarrow> jsval" where
  "get_prop [] k = JUndefined"
| "get_prop ((k', v) # kvs) k = (if k' = k then v else get_prop kvs k)"

text \<open>
  \<open>obj.k = v\<close>: an existing property keeps its place and takes the new value, a new
  property goes to the end.
\<close>

fun set_prop :: "jsobject \<Rightarrow> string \<Rightarrow> jsval \<Rightarrow> jsobject" where
  "set_prop [] k v = [(k, v)]"
| "set_prop ((k', v') # kvs) k v =
     (if k' = k then (k, v) # kvs else (k', v') # set_prop kvs k v)"

text \<open>
  \<open>{...a, ...b}\<close>: a fresh object that receives the own properties of \<open>a\<close> and then
  those of \<open>b\<close>, one assignment at a time.
\<close>

definition copy_props :: "jsobject \<Rightarrow> jsobject \<Rightarrow> jsobject" where
  "copy_props target source = foldl (\<lambda>acc (k, v). set_prop acc k v) target source"

definition spread2 :: "jsobject \<Rightarrow> jsobject \<Rightarrow> jsobject" where
  "spread2 a b = copy_props (copy_props [] a) b"

section \<open>JSON text\<close>

subsection \<open>\<open>JSON.stringify\<close>\<close>

abbreviation dquote :: char where
  "dquote \<equiv> CHR 0x22"

abbreviation bslash :: char where
  "bslash \<equiv> CHR 0x5C"

definition hex_digit :: "nat \<Rightarrow> char" where
  "hex_digit d = (if d < 10 then char_of (48 + d) else char_of (87 + d))"

text \<open>
  \<open>QuoteJSONString\<close>: the two-character escapes, \<open>\u00XX\<close> in lower-case hexadecimal
  for the other control characters, every other code unit as it is.
\<close>

definition quote_code_unit :: "char \<Rightarrow> string" where
  "quote_code_unit c =
     (if c = CHR 0x08 then [bslash, CHR ''b'']
      else if c = CHR 0x09 then [bslash, CHR ''t'']
      else if c = CHR 0x0A then [bslash, CHR ''n'']
      else if c = CHR 0x0C then [bslash, CHR ''f'']
      else if c = CHR 0x0D then [bslash, CHR ''r'']
      else if c = dquote then [bslash, dquote]
      else if c = bslash then [bslash, bslash]
      else if (of_char c :: nat) < 32 then
        [bslash, CHR ''u'', CHR ''0'', CHR ''0'',
         hex_digit ((of_char c :: nat) div 16), hex_digit ((of_char c :: nat) mod 16)]
      else [c])"

definition QuoteJSONString :: "string \<Rightarrow> string" where
  "QuoteJSONString s = dquote # concat (map quote_code_unit s) @ [dquote]"

fun join_comma :: "string list \<Rightarrow> string" where
  "join_comma [] = []"
| "join_comma [x] = x"
| "join_comma (x # y # r) = x @ '','' @ join_comma (y # r)"

text \<open>
  \<open>SerializeJSONProperty\<close> answers \<open>undefined\<close> (here \<open>None\<close>) for the value
  \<open>undefined\<close>, and \<open>SerializeJSONObject\<close> leaves such a property out of the text.
\<close>

fun SerializeJSONProperty :: "jsval \<Rightarrow> string option"
  and SerializeJSONMembers :: "jsobject \<Rightarrow> string list" where
  "SerializeJSONProperty JUndefined = None"
| "SerializeJSONProperty JNull = Some ''null''"
| "SerializeJSONProperty (JBool b) = Some (if b then ''true'' else ''false'')"
| "SerializeJSONProperty (JString s) = Some (QuoteJSONString s)"
| "SerializeJSONProperty (JObject kvs) =
     Some (''{'' @ join_comma (SerializeJSONMembers kvs) @ ''}'')"
| "SerializeJSONMembers [] = []"
| "SerializeJSONMembers ((k, v) # kvs) =
     (case SerializeJSONProperty v of
        None \<Rightarrow> SerializeJSONMembers kvs
      | Some str \<Rightarrow> (QuoteJSONString k @ '':'' @ str) # SerializeJSONMembers kvs)"

definition JSON_stringify :: "jsval \<Rightarrow> string option" where
  "JSON_stringify v = SerializeJSONProperty v"

text \<open>A template literal prints \<open>undefined\<close> as the word.\<close>

definition template_text :: "string option \<Rightarrow> string" where
  "template_text t = (case t of None \<Rightarrow> ''undefined'' | Some s \<Rightarrow> s)"

subsection \<open>\<open>JSON.parse\<close>\<close>

text \<open>
  The reader of the payload, for the values above: white space between tokens, strings
  with every JSON escape, \<open>true\<close>, \<open>false\<close>, \<open>null\<close> and objects, where a repeated
  key overwrites the earlier value. \<open>None\<close> is the \<open>SyntaxError\<close>. Numbers and arrays
  are refused, and so is a \<open>\uXXXX\<close> escape beyond \<open>0xFF\<close>, which a \<^typ>\<open>char\<close> cannot
  hold. The first argument of \<open>parse_value\<close> and \<open>parse_members\<close> bounds the number of
  nested calls; \<open>JSON_parse\<close> supplies more than the text can use.
\<close>

definition is_ws :: "char \<Rightarrow> bool" where
  "is_ws c = (c = CHR '' '' \<or> c = CHR 0x09 \<or> c = CHR 0x0A \<or> c = CHR 0x0D)"

definition skip_ws :: "string \<Rightarrow> string" where
  "skip_ws s = dropWhile is_ws s"

definition hex_value :: "char \<Rightarrow> nat option" where
  "hex_value c =
     (let n = (of_char c :: nat)
      in if 48 \<le> n \<and> n \<le> 57 then Some (n - 48)
         else if 97 \<le> n \<and> n \<le> 102 then Some (n - 87)
         else if 65 \<le> n \<and> n \<le> 70 then Some (n - 55)
         else None)"

definition hex4 :: "char \<Rightarrow> char \<Rightarrow> char \<Rightarrow> char \<Rightarrow> nat option" where
  "hex4 a b c d =
     (case (hex_value a, hex_value b, hex_value c, hex_value d) of
        (Some w, Some x, Some y, Some z) \<Rightarrow> Some (((w * 16 + x) * 16 + y) * 16 + z)
      | _ \<Rightarrow> None)"

definition unescape :: "char \<Rightarrow> char option" where
  "unescape e =
     (if e = dquote then Some dquote
      else if e = bslash then Some bslash
      else if e = CHR ''/'' then Some (CHR ''/'')
      else if e = CHR ''b'' then Some (CHR 0x08)
      else if e = CHR ''f'' then Some (CHR 0x0C)
      else if e = CHR ''n'' then Some (CHR 0x0A)
      else if e = CHR ''r'' then Some (CHR 0x0D)
      else if e = CHR ''t'' then Some (CHR 0x09)
      else None)"

definition cons_string :: "char \<Rightarrow> (string \<times> string) option \<Rightarrow> (string \<times> string) option" where
  "cons_string c res = (case res of None \<Rightarrow> None | Some (s, rest) \<Rightarrow> Some (c # s, rest))"

text \<open>The characters of a string after its opening quote, and the text after the closing one.\<close>

fun parse_string_body :: "string \<Rightarrow> (string \<times> string) option" where
  "parse_string_body [] = None"
| "parse_string_body (c # cs) =
     (if c = dquote then Some ([], cs)
      else if c = bslash then
        (case cs of
           [] \<Rightarrow> None
         | e # r \<Rightarrow>
             (if e = CHR ''u'' then
                (case r of
                   h1 # h2 # h3 # h4 # r' \<Rightarrow>
                     (case hex4 h1 h2 h3 h4 of
                        None \<Rightarrow> None
                      | Some n \<Rightarrow>
                          if n < 256 then cons_string (char_of n) (parse_string_body r')
                          else None)
                 | _ \<Rightarrow> None)
              else
                (case unescape e of
                   None \<Rightarrow> None
                 | Some ch \<Rightarrow> cons_string ch (parse_string_body r))))
      else if (of_char c :: nat) < 32 then None
      else cons_string c (parse_string_body cs))"

fun parse_value :: "nat \<Rightarrow> string \<Rightarrow> (jsval \<times> string) option"
  and parse_members :: "nat \<Rightarrow> jsobject \<Rightarrow> string \<Rightarrow> (jsobject \<times> string) option" where
  "parse_value 0 s = None"
| "parse_value (Suc n) s =
     (case skip_ws s of
        [] \<Rightarrow> None
      | c # cs \<Rightarrow>
          if c = dquote then
            (case parse_string_body cs of
               None \<Rightarrow> None
             | Some (str, r) \<Rightarrow> Some (JString str, r))
          else if c = CHR ''{'' then
            (case skip_ws cs of
               [] \<Rightarrow> None
             | d # ds \<Rightarrow>
                 if d = CHR ''}'' then Some (JObject [], ds)
                 else (case parse_members n [] (d # ds) of
                         None \<Rightarrow> None
                       | Some (obj, r) \<Rightarrow> Some (JObject obj, r)))
          else if prefix ''true'' (c # cs) then Some (JBool True, drop 4 (c # cs))
          else if prefix ''false'' (c # cs) then Some (JBool False, drop 5 (c # cs))
          else if prefix ''null'' (c # cs) then Some (JNull, drop 4 (c # cs))
          else None)"
| "parse_members 0 acc s = None"
| "parse_members (Suc n) acc s =
     (case skip_ws s of
        [] \<Rightarrow> None
      | c # cs \<Rightarrow>
          if c \<noteq> dquote then None
          else
            (case parse_string_body cs of
               None \<Rightarrow> None
             | Some (k, r1) \<Rightarrow>
                 (case skip_ws r1 of
                    [] \<Rightarrow> None
                  | c2 # r2 \<Rightarrow>
                      if c2 \<noteq> CHR '':'' then None
                      else
                        (case parse_value n r2 of
                           None \<Rightarrow> None
                         | Some (v, r3) \<Rightarrow>
                             (case skip_ws r3 of
                                [] \<Rightarrow> None
                              | c4 # r4 \<Rightarrow>
                                  if c4 = CHR '','' then parse_members n (set_prop acc k v) r4
                                  else if c4 = CHR ''}'' then Some (set_prop acc k v, r4)
                                  else None)))))"

definition JSON_parse :: "string \<Rightarrow> jsval option" where
  "JSON_parse s =
     (case parse_value (Suc (length s)) s of
        None \<Rightarrow> None
      | Some (v, rest) \<Rightarrow> if skip_ws rest = [] then Some v else None)"

text \<open>What is left of a value once every property whose value is \<open>undefined\<close> is dropped.\<close>

fun drop_undefined :: "jsval \<Rightarrow> jsval"
  and drop_undefined_props :: "jsobject \<Rightarrow> jsobject" where
  "drop_undefined JUndefined = JUndefined"
| "drop_undefined JNull = JNull"
| "drop_undefined (JBool b) = JBool b"
| "drop_undefined (JString s) = JString s"
| "drop_undefined (JObject kvs) = JObject (drop_undefined_props kvs)"
| "drop_undefined_props [] = []"
| "drop_undefined_props ((k, v) # kvs) =
     (if v = JUndefined then drop_undefined_props kvs
      else (k, drop_undefined v) # drop_undefined_props kvs)"

text \<open>An object has each property name once, at every depth.\<close>

fun wf_value :: "jsval \<Rightarrow> bool"
  and wf_props :: "jsobject \<Rightarrow> bool" where
  "wf_value JUndefined = True"
| "wf_value JNull = True"
| "wf_value (JBool b) = True"
| "wf_value (JString s) = True"
| "wf_value (JObject kvs) = wf_props kvs"
| "wf_props [] = True"
| "wf_props ((k, v) # kvs) = (k \<notin> fst ` set kvs \<and> wf_value v \<and> wf_props kvs)"

section \<open>The resolved configuration of the host\<close>

text \<open>
  What \<open>configResolved\<close> reads of the host configuration: the list of plugins, and of
  the plugin named \<open>vite-plugin-svelte\<close> the options it exposes under \<open>api.options\<close>.
  Each link of \<open>vps?.api?.options?.experimental?.nvim_inspector\<close> may be missing. The
  setting is a boolean or an options object, as in \<open>nvim_inspector: true\<close>.
\<close>

datatype inspector_setting = Flag bool | Options jsobject

record kit_options =
  outDir :: "string option"

record experimental_options =
  nvim_inspector :: "inspector_setting option"

record vps_options =
  experimental :: "experimental_options option"
  kit :: "kit_options option"

record vps_api =
  options :: "vps_options option"

record plugin =
  name :: string
  api :: "vps_api option"

record resolved_config =
  plugins :: "plugin list"

fun setting_truthy :: "inspector_setting option \<Rightarrow> bool" where
  "setting_truthy None = False"
| "setting_truthy (Some (Flag b)) = b"
| "setting_truthy (Some (Options obj)) = True"

text \<open>The own properties that \<open>...setting\<close> copies: a boolean has none.\<close>

fun setting_props :: "inspector_setting option \<Rightarrow> jsobject" where
  "setting_props (Some (Options obj)) = obj"
| "setting_props _ = []"

definition find_vps :: "resolved_config \<Rightarrow> plugin option" where
  "find_vps config = List.find (\<lambda>p. name p = ''vite-plugin-svelte'') (plugins config)"

definition vps_setting :: "plugin option \<Rightarrow> inspector_setting option" where
  "vps_setting vps =
     (case vps of
        None \<Rightarrow> None
      | Some p \<Rightarrow>
          (case api p of
             None \<Rightarrow> None
           | Some a \<Rightarrow>
               (case options a of
                  None \<Rightarrow> None
                | Some opts \<Rightarrow>
                    (case experimental opts of
                       None \<Rightarrow> None
                     | Some e \<Rightarrow> nvim_inspector e))))"

section \<open>Paths\<close>

text \<open>
  \<open>path.basename\<close> of Node: trailing separators are passed over, and the result is
  what lies between the separator before them and the end. The Windows flavour, chosen
  when \<open>process.platform\<close> is \<open>win32\<close>, counts the backslash as a separator too and
  steps over a drive prefix such as \<open>C:\<close>.
\<close>

definition basename_sep :: "(char \<Rightarrow> bool) \<Rightarrow> string \<Rightarrow> string" where
  "basename_sep is_sep p = rev (takeWhile (\<lambda>c. \<not> is_sep c) (dropWhile is_sep (rev p)))"

definition isWindowsDeviceRoot :: "char \<Rightarrow> bool" where
  "isWindowsDeviceRoot c =
     (let n = (of_char c :: nat) in (65 \<le> n \<and> n \<le> 90) \<or> (97 \<le> n \<and> n \<le> 122))"

definition basename :: "string \<Rightarrow> string \<Rightarrow> string" where
  "basename platform p =
     (if platform = ''win32'' then
        basename_sep (\<lambda>c. c = CHR ''/'' \<or> c = bslash)
          (case p of
             c # d # r \<Rightarrow> if isWindowsDeviceRoot c \<and> d = CHR '':'' then r else p
           | _ \<Rightarrow> p)
      else basename_sep (\<lambda>c. c = CHR ''/'') p)"

text \<open>
  \<open>getInspectorPath\<close>: the directory of the plugin's own file, already normalised by
  the host, is the argument. The regular expression \<open>/\/vite-plugin-svelte\/dist$/\<close>
  matches at the end of the text only, and its replacement has no dollar sign.
\<close>

definition getInspectorPath :: "string \<Rightarrow> string" where
  "getInspectorPath pluginPath =
     (if endsWith pluginPath ''/vite-plugin-svelte/dist''
      then take (length pluginPath - length ''/vite-plugin-svelte/dist'') pluginPath
             @ ''/vite-plugin-svelte/src/ui/inspector/''
      else pluginPath)"

section \<open>The plugin\<close>

definition defaultInspectorOptions :: "string \<Rightarrow> jsobject" where
  "defaultInspectorOptions platform =
     [(''toggleKeyCombo'',
         JString (if platform = ''win32'' then ''control-shift'' else ''meta-shift'')),
      (''navKeys'',
         JObject [(''parent'', JString ''ArrowUp''), (''child'', JString ''ArrowDown''),
                  (''next'', JString ''ArrowRight''), (''prev'', JString ''ArrowLeft'')]),
      (''openKey'', JString ''Enter''),
      (''holdMode'', JBool False),
      (''showToggleButton'', JString ''active''),
      (''toggleButtonPos'', JString ''top-right''),
      (''customStyles'', JBool True)]"

text \<open>
  The variables that the hooks close over. \<open>inspectorPath\<close> is fixed when the plugin
  is made; the other three are assigned by \<open>configResolved\<close>.
\<close>

record plugin_state =
  inspectorPath :: string
  inspectorOptions :: "jsobject option"
  appendTo :: jsval
  disabled :: bool

definition svelteInspector :: "string \<Rightarrow> plugin_state" where
  "svelteInspector pluginPath =
     \<lparr>inspectorPath = getInspectorPath pluginPath @ ''/'',
      inspectorOptions = None,
      appendTo = JUndefined,
      disabled = False\<rparr>"

abbreviation options_id :: string where
  "options_id \<equiv> ''virtual:svelte-inspector-options''"

abbreviation path_prefix :: string where
  "path_prefix \<equiv> ''virtual:svelte-inspector-path:''"

text \<open>
  \<open>configResolved\<close>. The first argument is \<open>process.platform\<close>.
  \<open>merged_options\<close> is the object literal \<open>{...defaultInspectorOptions, ...setting}\<close>,
  and \<open>kit_appendTo\<close> the block that gives a SvelteKit project its default
  \<open>appendTo\<close>. In the last branch \<open>vps.api.options.kit\<close> is read without \<open>?.\<close>,
  so a missing link there is a \<open>TypeError\<close>.
\<close>

definition merged_options :: "string \<Rightarrow> inspector_setting option \<Rightarrow> jsobject" where
  "merged_options platform setting =
     spread2 (defaultInspectorOptions platform) (setting_props setting)"

definition kit_out_dir :: "string \<Rightarrow> kit_options \<Rightarrow> string" where
  "kit_out_dir platform k =
     basename platform
       (case outDir k of
          None \<Rightarrow> ''.svelte-kit''
        | Some d \<Rightarrow> if d = [] then ''.svelte-kit'' else d)"

definition kit_appendTo :: "string \<Rightarrow> vps_options \<Rightarrow> jsobject \<Rightarrow> jsobject" where
  "kit_appendTo platform opts io =
     (case kit opts of
        None \<Rightarrow> io
      | Some k \<Rightarrow>
          if \<not> truthy (get_prop io ''appendTo'')
          then set_prop io ''appendTo''
                 (JString (kit_out_dir platform k @ ''/generated/root.svelte''))
          else io)"

definition configResolved ::
  "string \<Rightarrow> plugin_state \<Rightarrow> resolved_config \<Rightarrow> error + plugin_state" where
  "configResolved platform st config =
     (let vps = find_vps config;
          setting = vps_setting vps;
          st1 = (if setting_truthy setting
                 then st\<lparr>inspectorOptions := Some (merged_options platform setting)\<rparr>
                 else st)
      in case vps of
           None \<Rightarrow> Inr (st1\<lparr>disabled := True\<rparr>)
         | Some p \<Rightarrow>
             (case inspectorOptions st1 of
                None \<Rightarrow> Inr (st1\<lparr>disabled := True\<rparr>)
              | Some io \<Rightarrow>
                  (case api p of
                     None \<Rightarrow> Inl TypeError
                   | Some a \<Rightarrow>
                       (case options a of
                          None \<Rightarrow> Inl TypeError
                        | Some opts \<Rightarrow>
                            (let io' = kit_appendTo platform opts io
                             in Inr (st1\<lparr>inspectorOptions := Some io',
                                         appendTo := get_prop io' ''appendTo''\<rparr>))))))"

text \<open>
  \<open>configureServer\<close> adds the handler to the listeners of the web socket of the
  development server, whatever the state of the plugin. \<open>ws_receive\<close> is the host
  delivering one event to the listeners registered for it.
\<close>

record ws_server =
  listeners :: "(string \<times> (ws_payload option \<Rightarrow> error + string list)) list"

definition configureServer :: "plugin_state \<Rightarrow> ws_server \<Rightarrow> ws_server" where
  "configureServer st server =
     server\<lparr>listeners := listeners server @ [(''my:from-client'', from_client_handler)]\<rparr>"

definition ws_receive :: "ws_server \<Rightarrow> string \<Rightarrow> ws_payload option \<Rightarrow> (error + string list) list" where
  "ws_receive server event data =
     map (\<lambda>(e, h). h data) (filter (\<lambda>(e, h). e = event) (listeners server))"

text \<open>\<open>resolveId\<close>; the flag is \<open>options?.ssr\<close>, \<open>None\<close> is \<open>undefined\<close>.\<close>

definition resolveId :: "plugin_state \<Rightarrow> string \<Rightarrow> bool \<Rightarrow> string option" where
  "resolveId st importee ssr =
     (if ssr \<or> disabled st then None
      else if startsWith importee options_id then Some importee
      else if startsWith importee path_prefix
        then Some (replace importee path_prefix (inspectorPath st))
      else None)"

text \<open>
  \<open>load\<close>. \<open>idToFile\<close> is imported from \<open>./utils\<close> and is a parameter here, and so
  is the file system, which maps a path to what is there; \<open>existsSync\<close> holds of a
  directory too, and \<open>readFile\<close> then fails with \<open>EISDIR\<close>.
\<close>

datatype fs_entry = File string | Directory

type_synonym filesystem = "string \<Rightarrow> fs_entry option"

definition load ::
  "(string \<Rightarrow> string) \<Rightarrow> filesystem \<Rightarrow> plugin_state \<Rightarrow> string \<Rightarrow> bool \<Rightarrow> error + string option" where
  "load idToFile fs st ident ssr =
     (if ssr \<or> disabled st then Inr None
      else if ident = options_id then
        Inr (Some (''export default '' @
          template_text
            (JSON_stringify
               (JObject (case inspectorOptions st of None \<Rightarrow> [] | Some io \<Rightarrow> io)))))
      else if startsWith ident (inspectorPath st) then
        (let file = idToFile ident
         in case fs file of
              None \<Rightarrow> Inr None
            | Some (File content) \<Rightarrow> Inr (Some content)
            | Some Directory \<Rightarrow> Inl EISDIR)
      else Inr None)"

text \<open>\<open>transform\<close>: the result is the \<open>code\<close> field of the object returned.\<close>

definition inspector_import :: string where
  "inspector_import =
     [CHR 0x0A] @ ''import '' @ [CHR 0x27] @ ''virtual:svelte-inspector-path:load-inspector.js''
       @ [CHR 0x27]"

definition transform :: "plugin_state \<Rightarrow> string \<Rightarrow> string \<Rightarrow> bool \<Rightarrow> string option" where
  "transform st code ident ssr =
     (if ssr \<or> disabled st \<or> \<not> truthy (appendTo st) then None
      else if endsWith ident (to_string (appendTo st)) then Some (code @ inspector_import)
      else None)"

text \<open>\<open>transformIndexHtml\<close>.\<close>

record html_tag =
  tag :: string
  injectTo :: string
  attrs :: "(string \<times> string) list"

record html_result =
  html :: string
  tags :: "html_tag list"

definition transformIndexHtml :: "plugin_state \<Rightarrow> string \<Rightarrow> html_result option" where
  "transformIndexHtml st h =
     (if disabled st \<or> truthy (appendTo st) then None
      else Some \<lparr>html = h,
                 tags = [\<lparr>tag = ''script'', injectTo = ''body'',
                          attrs = [(''type'', ''module''),
                                   (''src'', ''/@id/virtual:svelte-inspector-path:load-inspector.js'')]\<rparr>]\<rparr>)"

section \<open>Notions used to state the properties\<close>

text \<open>No property, at any depth, has the value \<open>undefined\<close>.\<close>

fun no_undefined :: "jsval \<Rightarrow> bool"
  and no_undefined_props :: "jsobject \<Rightarrow> bool" where
  "no_undefined JUndefined = True"
| "no_undefined JNull = True"
| "no_undefined (JBool b) = True"
| "no_undefined (JString s) = True"
| "no_undefined (JObject kvs) = no_undefined_props kvs"
| "no_undefined_props [] = True"
| "no_undefined_props ((k, v) # kvs) =
     (v \<noteq> JUndefined \<and> no_undefined v \<and> no_undefined_props kvs)"

definition wf_setting :: "inspector_setting option \<Rightarrow> bool" where
  "wf_setting setting = wf_props (setting_props setting)"

definition no_undefined_setting :: "inspector_setting option \<Rightarrow> bool" where
  "no_undefined_setting setting = no_undefined_props (setting_props setting)"

text \<open>
  \<open>parse(load(options_id))\<close>: the text that \<open>load\<close> answers for the options id,
  without the leading \<open>export default\<close>, read as JSON.
\<close>

definition parse_loaded_options ::
  "(string \<Rightarrow> string) \<Rightarrow> filesystem \<Rightarrow> plugin_state \<Rightarrow> jsval option" where
  "parse_loaded_options idToFile fs st =
     (case load idToFile fs st options_id False of
        Inr (Some src) \<Rightarrow>
          if startsWith src ''export default ''
          then JSON_parse (drop (length ''export default '') src)
          else None
      | _ \<Rightarrow> None)"

text \<open>
  A host configuration whose only plugin is \<open>vite-plugin-svelte\<close>, with the given
  inspector setting and SvelteKit options. \<open>svelte_config\<close> is the project's own
  \<open>svelte.config.js\<close>: \<open>nvim_inspector: true\<close> in a SvelteKit project.
\<close>

definition vps_config :: "inspector_setting option \<Rightarrow> kit_options option \<Rightarrow> resolved_config" where
  "vps_config setting k =
     \<lparr>plugins =
        [\<lparr>name = ''vite-plugin-svelte'',
          api = Some \<lparr>options = Some \<lparr>experimental = Some \<lparr>nvim_inspector = setting\<rparr>,
                                      kit = k\<rparr>\<rparr>\<rparr>]\<rparr>"

definition svelte_config :: resolved_config where
  "svelte_config = vps_config (Some (Flag True)) (Some \<lparr>outDir = None\<rparr>)"

section \<open>Facts about the string primitives\<close>

lemma prefix_colon: "prefix '':'' (c # cs) \<longleftrightarrow> c = CHR '':''"
  by auto

lemma substring_nat:
  "a \<le> b \<Longrightarrow> b \<le> length s \<Longrightarrow> substring s (int a) (int b) = take (b - a) (drop a s)"
  by (simp add: substring_def Let_def min_def max_def nat_diff_distrib')

lemma substring_swap:
  "b \<le> a \<Longrightarrow> a \<le> length s \<Longrightarrow> substring s (int a) (int b) = take (a - b) (drop b s)"
  by (simp add: substring_def Let_def min_def max_def nat_diff_distrib')

lemma indexOf_from_none: "CHR '':'' \<notin> set s \<Longrightarrow> indexOf_from s '':'' k = - 1"
  by (induction s arbitrary: k) auto

lemma indexOf_from_first:
  "CHR '':'' \<notin> set f \<Longrightarrow> indexOf_from (f @ CHR '':'' # r) '':'' k = int (k + length f)"
  by (induction f arbitrary: k) auto

lemma lastIndexOf_from_none:
  "CHR '':'' \<notin> set s \<Longrightarrow> lastIndexOf_from s '':'' k best = best"
  by (induction s arbitrary: k best) auto

lemma lastIndexOf_from_last:
  "CHR '':'' \<notin> set r \<Longrightarrow>
     lastIndexOf_from (f @ CHR '':'' # r) '':'' k best = int (k + length f)"
  by (induction f arbitrary: k best) (auto simp: lastIndexOf_from_none)

lemma GetSubstitution_plain:
  "CHR ''$'' \<notin> set t \<Longrightarrow> GetSubstitution matched pre post t = t"
  by (induction matched pre post t rule: GetSubstitution.induct) auto

lemma GetSubstitution_last:
  "t \<noteq> [] \<Longrightarrow> last t = CHR ''/'' \<Longrightarrow>
     GetSubstitution matched pre post t \<noteq> [] \<and> last (GetSubstitution matched pre post t) = CHR ''/''"
  by (induction matched pre post t rule: GetSubstitution.induct) (auto split: if_splits)

lemma indexOf_prefix: "prefix p s \<Longrightarrow> indexOf s p = 0"
  by (cases s) (auto simp: indexOf_def)

lemma replace_prefix:
  "replace (p @ rest) p r = GetSubstitution p [] rest r @ rest"
  by (simp add: replace_def indexOf_prefix Let_def)

section \<open>The payload of the development channel\<close>

lemma parse_file_first:
  "CHR '':'' \<notin> set f \<Longrightarrow> parse_file (f @ CHR '':'' # r) = f"
  by (simp add: parse_file_def indexOf_def indexOf_from_first substring_def Let_def)

lemma parse_file_none: "CHR '':'' \<notin> set s \<Longrightarrow> parse_file s = []"
  by (simp add: parse_file_def indexOf_def indexOf_from_none substring_def Let_def)

lemma parse_row_none: "CHR '':'' \<notin> set s \<Longrightarrow> parse_row s = ''0''"
  by (simp add: parse_row_def indexOf_def lastIndexOf_def indexOf_from_none
      lastIndexOf_from_none substring_def Let_def)

lemma parse_row_between:
  assumes "CHR '':'' \<notin> set f" and "CHR '':'' \<notin> set r"
  shows "parse_row (f @ CHR '':'' # m @ CHR '':'' # r) = (if m = [] then ''0'' else m)"
proof -
  let ?msg = "f @ CHR '':'' # m @ CHR '':'' # r"
  have i: "indexOf ?msg '':'' = int (length f)"
    using assms(1) by (simp add: indexOf_def indexOf_from_first)
  have "lastIndexOf_from ((f @ CHR '':'' # m) @ CHR '':'' # r) '':'' 0 (- 1) =
      int (0 + length (f @ CHR '':'' # m))"
    using assms(2) by (rule lastIndexOf_from_last)
  then have j: "lastIndexOf ?msg '':'' = int (Suc (length f) + length m)"
    by (simp add: lastIndexOf_def)
  have s: "substring ?msg (int (Suc (length f))) (int (Suc (length f) + length m)) = m"
    by (subst substring_nat) simp_all
  have i': "int (length f) + 1 = int (Suc (length f))"
    by simp
  show ?thesis
    unfolding parse_row_def i j i' s by (simp add: Let_def)
qed

text \<open>
  With one colon only, the first and the last colon are the same: the start handed
  to \<open>substring\<close> lies one past its end, the two are swapped, and the row is the
  colon itself.
\<close>

lemma parse_row_single_colon:
  assumes "CHR '':'' \<notin> set f" and "CHR '':'' \<notin> set r"
  shows "parse_row (f @ CHR '':'' # r) = '':''"
proof -
  have i: "indexOf (f @ CHR '':'' # r) '':'' = int (length f)"
    using assms(1) by (simp add: indexOf_def indexOf_from_first)
  have j: "lastIndexOf (f @ CHR '':'' # r) '':'' = int (length f)"
    using assms(2) by (simp add: lastIndexOf_def lastIndexOf_from_last)
  have s: "substring (f @ CHR '':'' # r) (int (Suc (length f))) (int (length f)) = '':''"
    by (subst substring_swap) simp_all
  have i': "int (length f) + 1 = int (Suc (length f))"
    by simp
  show ?thesis
    unfolding parse_row_def i j i' s by (simp add: Let_def)
qed

section \<open>JSON text read back\<close>

lemma hex_value_digit: "d < 16 \<Longrightarrow> hex_value (hex_digit d) = Some d"
  by (auto simp add: hex_value_def hex_digit_def Let_def)

lemma hex_value_zero: "hex_value (CHR ''0'') = Some 0"
  by (simp add: hex_value_def)

lemma hex4_control:
  "n < 32 \<Longrightarrow> hex4 (CHR ''0'') (CHR ''0'') (hex_digit (n div 16)) (hex_digit (n mod 16)) = Some n"
proof -
  assume n: "n < 32"
  have a: "hex_value (hex_digit (n div 16)) = Some (n div 16)"
    using n by (intro hex_value_digit) simp
  have b: "hex_value (hex_digit (n mod 16)) = Some (n mod 16)"
    by (intro hex_value_digit) simp
  show ?thesis by (simp add: hex4_def a b hex_value_zero)
qed

lemma parse_escaped_control:
  assumes "(of_char c :: nat) < 32"
  shows "parse_string_body ([bslash, CHR ''u'', CHR ''0'', CHR ''0'',
         hex_digit ((of_char c :: nat) div 16), hex_digit ((of_char c :: nat) mod 16)] @ rest) = cons_string c (parse_string_body rest)"
  using assms by (simp add: hex4_control)


lemma parse_two_char_escape:
  "unescape e = Some c \<Longrightarrow> e \<noteq> CHR ''u'' \<Longrightarrow>
     parse_string_body (bslash # e # rest) = cons_string c (parse_string_body rest)"
  by simp

lemma parse_plain:
  "c \<noteq> dquote \<Longrightarrow> c \<noteq> bslash \<Longrightarrow> \<not> (of_char c :: nat) < 32 \<Longrightarrow>
     parse_string_body (c # rest) = cons_string c (parse_string_body rest)"
  by simp

lemma parse_code_unit:
  "parse_string_body (quote_code_unit c @ rest) = cons_string c (parse_string_body rest)"
proof -
  consider (b) "c = CHR 0x08" | (t) "c = CHR 0x09" | (n) "c = CHR 0x0A" | (f) "c = CHR 0x0C"
    | (r) "c = CHR 0x0D" | (q) "c = dquote" | (s) "c = bslash"
    | (ctl) "c \<notin> {CHR 0x08, CHR 0x09, CHR 0x0A, CHR 0x0C, CHR 0x0D, dquote, bslash}"
        "(of_char c :: nat) < 32"
    | (plain) "c \<notin> {CHR 0x08, CHR 0x09, CHR 0x0A, CHR 0x0C, CHR 0x0D, dquote, bslash}"
        "\<not> (of_char c :: nat) < 32"
    by blast
  then show ?thesis
  proof cases
    case b
    show ?thesis unfolding b quote_code_unit_def
      by (simp add: unescape_def del: parse_string_body.simps add: parse_two_char_escape)
  next
    case t
    show ?thesis unfolding t quote_code_unit_def
      by (simp add: unescape_def del: parse_string_body.simps add: parse_two_char_escape)
  next
    case n
    show ?thesis unfolding n quote_code_unit_def
      by (simp add: unescape_def del: parse_string_body.simps add: parse_two_char_escape)
  next
    case f
    show ?thesis unfolding f quote_code_unit_def
      by (simp add: unescape_def del: parse_string_body.simps add: parse_two_char_escape)
  next
    case r
    show ?thesis unfolding r quote_code_unit_def
      by (simp add: unescape_def del: parse_string_body.simps add: parse_two_char_escape)
  next
    case q
    show ?thesis unfolding q quote_code_unit_def
      by (simp add: unescape_def del: parse_string_body.simps add: parse_two_char_escape)
  next
    case s
    show ?thesis unfolding s quote_code_unit_def
      by (simp add: unescape_def del: parse_string_body.simps add: parse_two_char_escape)
  next
    case ctl
    then have "quote_code_unit c = [bslash, CHR ''u'', CHR ''0'', CHR ''0'',
         hex_digit ((of_char c :: nat) div 16), hex_digit ((of_char c :: nat) mod 16)]"
      by (simp add: quote_code_unit_def)
    then show ?thesis
      using parse_escaped_control[OF ctl(2), of rest] by simp
  next
    case plain
    then have "quote_code_unit c = [c]"
      by (simp add: quote_code_unit_def)
    then show ?thesis
      using plain by (simp del: parse_string_body.simps add: parse_plain)
  qed
qed

lemma parse_quoted_body:
  "parse_string_body (concat (map quote_code_unit s) @ dquote # rest) = Some (s, rest)"
  by (induction s) (simp_all add: parse_code_unit cons_string_def)

lemma skip_ws_nonws: "\<not> is_ws c \<Longrightarrow> skip_ws (c # cs) = c # cs"
  by (simp add: skip_ws_def)

lemma nonws_chars:
  "\<not> is_ws dquote" "\<not> is_ws (CHR ''{'')" "\<not> is_ws (CHR ''}'')" "\<not> is_ws (CHR '':'')"
  "\<not> is_ws (CHR '','')" "\<not> is_ws (CHR ''t'')" "\<not> is_ws (CHR ''f'')" "\<not> is_ws (CHR ''n'')"
  by (simp_all add: is_ws_def)

lemma serialize_None: "SerializeJSONProperty v = None \<longleftrightarrow> v = JUndefined"
  by (cases v) simp_all

lemma members_Nil_drop: "SerializeJSONMembers kvs = [] \<Longrightarrow> drop_undefined_props kvs = []"
  by (induction kvs) (auto simp: serialize_None split: option.splits)

lemma set_prop_fresh: "k \<notin> fst ` set acc \<Longrightarrow> set_prop acc k v = acc @ [(k, v)]"
  by (induction acc) auto

lemma parse_member_head:
  "parse_members (Suc n) acc (QuoteJSONString k @ '':'' @ Y) =
     (case parse_value n Y of
        None \<Rightarrow> None
      | Some (v, r3) \<Rightarrow>
          (case skip_ws r3 of
             [] \<Rightarrow> None
           | c4 # r4 \<Rightarrow>
               if c4 = CHR '','' then parse_members n (set_prop acc k v) r4
               else if c4 = CHR ''}'' then Some (set_prop acc k v, r4)
               else None))"
  by (simp add: QuoteJSONString_def skip_ws_nonws nonws_chars parse_quoted_body)

lemma length_join_Cons:
  "length (join_comma (m # ms)) = length m + (if ms = [] then 0 else 1 + length (join_comma ms))"
  by (cases ms) simp_all


lemma members_start:
  "m \<in> set (SerializeJSONMembers kvs) \<Longrightarrow> \<exists>cs. m = dquote # cs"
  by (induction kvs) (auto simp: QuoteJSONString_def split: option.splits)

lemma join_start:
  "SerializeJSONMembers kvs = m # ms \<Longrightarrow>
     \<exists>cs. join_comma (SerializeJSONMembers kvs) = dquote # cs"
  using members_start[of m kvs] by (cases ms) auto

lemma json_roundtrip_aux:
  "wf_value v \<Longrightarrow> SerializeJSONProperty v = Some t \<Longrightarrow> length t \<le> n \<Longrightarrow>
     parse_value n (t @ rest) = Some (drop_undefined v, rest)"
  "wf_props kvs \<Longrightarrow> SerializeJSONMembers kvs \<noteq> [] \<Longrightarrow>
     length (join_comma (SerializeJSONMembers kvs)) \<le> n \<Longrightarrow>
     fst ` set acc \<inter> fst ` set kvs = {} \<Longrightarrow>
     parse_members n acc (join_comma (SerializeJSONMembers kvs) @ CHR ''}'' # rest) =
       Some (acc @ drop_undefined_props kvs, rest)"
proof (induction v and kvs arbitrary: t n rest and n acc rest
    rule: SerializeJSONProperty_SerializeJSONMembers.induct)
  case 1
  then show ?case by simp
next
  case 2
  then show ?case by (cases n) (auto simp: skip_ws_nonws nonws_chars)
next
  case (3 b)
  then show ?case by (cases n; cases b) (auto simp: skip_ws_nonws nonws_chars)
next
  case (4 s)
  then show ?case
    by (cases n) (auto simp: QuoteJSONString_def skip_ws_nonws nonws_chars parse_quoted_body)
next
  case (5 kvs)
  from "5.prems" obtain n' where n: "n = Suc n'" by (cases n) auto
  show ?case
  proof (cases "SerializeJSONMembers kvs")
    case Nil
    with "5.prems" have t: "t = ''{}''" by auto
    from Nil have "drop_undefined_props kvs = []" by (rule members_Nil_drop)
    then show ?thesis
      by (simp add: n t skip_ws_nonws nonws_chars)
  next
    case (Cons m ms)
    then have ne: "SerializeJSONMembers kvs \<noteq> []" by simp
    from "5.prems" n have len: "length (join_comma (SerializeJSONMembers kvs)) \<le> n'" by auto
    from "5.prems" have wf: "wf_props kvs" by simp
    have pm: "parse_members n' [] (join_comma (SerializeJSONMembers kvs) @ CHR ''}'' # rest) =
       Some ([] @ drop_undefined_props kvs, rest)"
      by (rule "5.IH"[OF wf ne len]) simp
    obtain cs where hd: "join_comma (SerializeJSONMembers kvs) = dquote # cs"
      using join_start[OF Cons] by auto
    from pm have pm': "parse_members n' [] (dquote # cs @ CHR ''}'' # rest) =
       Some (drop_undefined_props kvs, rest)"
      by (simp add: hd)
    from "5.prems" have t: "t = CHR ''{'' # (dquote # cs) @ ''}''"
      by (simp add: hd)
    show ?thesis
      by (simp add: n t pm' skip_ws_nonws nonws_chars)
  qed
next
  case 6
  then show ?case by simp
next
  case (7 k v kvs)
  from "7.prems" have wfv: "wf_value v" and wfk: "wf_props kvs" and fresh: "k \<notin> fst ` set kvs"
    by simp_all
  from "7.prems" have disj: "fst ` set acc \<inter> fst ` set kvs = {}" and kacc: "k \<notin> fst ` set acc"
    by auto
  show ?case
  proof (cases "SerializeJSONProperty v")
    case None
    then have v: "v = JUndefined" by (simp add: serialize_None)
    from "7.prems" None have ne: "SerializeJSONMembers kvs \<noteq> []"
      and len: "length (join_comma (SerializeJSONMembers kvs)) \<le> n" by simp_all
    from "7.IH"(2)[OF None wfk ne len disj] show ?thesis
      by (simp add: None v)
  next
    case (Some tv)
    then have v: "v \<noteq> JUndefined" by (auto simp: serialize_None)
    let ?m = "QuoteJSONString k @ '':'' @ tv"
    let ?ms = "SerializeJSONMembers kvs"
    have mem: "SerializeJSONMembers ((k, v) # kvs) = ?m # ?ms" by (simp add: Some)
    from "7.prems"(3) have len: "length ?m + (if ?ms = [] then 0 else 1 + length (join_comma ?ms)) \<le> n"
      by (simp only: mem length_join_Cons)
    have lq: "2 \<le> length (QuoteJSONString k)" by (simp add: QuoteJSONString_def)
    from len lq obtain n' where n: "n = Suc n'" by (cases n) auto
    from len lq n have lv: "length tv \<le> n'" by (auto split: if_splits)
    have pv: "parse_value n' (tv @ X) = Some (drop_undefined v, X)" for X
      by (rule "7.IH"(1)[OF wfv Some lv])
    have sp: "set_prop acc k (drop_undefined v) = acc @ [(k, drop_undefined v)]"
      by (rule set_prop_fresh[OF kacc])
    show ?thesis
    proof (cases "?ms = []")
      case True
      then have d: "drop_undefined_props kvs = []" by (rule members_Nil_drop)
      have "parse_members n acc (join_comma (SerializeJSONMembers ((k, v) # kvs)) @ CHR ''}'' # rest) =
          parse_members (Suc n') acc (QuoteJSONString k @ '':'' @ (tv @ CHR ''}'' # rest))"
        by (simp add: Some True n del: parse_members.simps)
      also have "\<dots> = Some (set_prop acc k (drop_undefined v), rest)"
        unfolding parse_member_head by (simp add: pv skip_ws_nonws nonws_chars)
      finally show ?thesis
        by (simp add: sp v d)
    next
      case False
      from len lq n False have lr: "length (join_comma ?ms) \<le> n'" by auto
      have disj': "fst ` set (acc @ [(k, drop_undefined v)]) \<inter> fst ` set kvs = {}"
        using disj fresh by auto
      have pm: "parse_members n' (acc @ [(k, drop_undefined v)]) (join_comma ?ms @ CHR ''}'' # rest) =
         Some ((acc @ [(k, drop_undefined v)]) @ drop_undefined_props kvs, rest)"
        by (rule "7.IH"(3)[OF Some wfk False lr disj'])
      obtain m2 ms2 where ms: "?ms = m2 # ms2" using False by (cases ?ms) auto
      have j: "join_comma (?m # ?ms) = ?m @ '','' @ join_comma ?ms"
        by (simp add: ms)
      have "parse_members n acc (join_comma (SerializeJSONMembers ((k, v) # kvs)) @ CHR ''}'' # rest) =
          parse_members (Suc n') acc
            (QuoteJSONString k @ '':'' @ (tv @ CHR '','' # join_comma ?ms @ CHR ''}'' # rest))"
        by (simp add: Some ms n del: parse_members.simps)
      also have "\<dots> = parse_members n' (set_prop acc k (drop_undefined v))
            (join_comma ?ms @ CHR ''}'' # rest)"
        unfolding parse_member_head by (simp add: pv skip_ws_nonws nonws_chars)
      finally show ?thesis
        by (simp add: sp pm v)
    qed
  qed
qed


lemma JSON_roundtrip:
  assumes "wf_value v" and "JSON_stringify v = Some t"
  shows "JSON_parse t = Some (drop_undefined v)"
proof -
  have "parse_value (Suc (length t)) (t @ []) = Some (drop_undefined v, [])"
    using assms by (intro json_roundtrip_aux(1)) (simp_all add: JSON_stringify_def)
  then show ?thesis
    by (simp add: JSON_parse_def skip_ws_def)
qed

section \<open>Facts about objects\<close>

lemma get_set_prop: "get_prop (set_prop obj k v) k' = (if k' = k then v else get_prop obj k')"
  by (induction obj) auto

lemma keys_set_prop: "fst ` set (set_prop obj k v) = insert k (fst ` set obj)"
  by (induction obj) (auto split: if_splits simp: rev_image_eqI)

lemma wf_set_prop: "wf_props obj \<Longrightarrow> wf_value v \<Longrightarrow> wf_props (set_prop obj k v)"
  by (induction obj) (auto simp: keys_set_prop)

lemma wf_props_value: "wf_props s \<Longrightarrow> (k, v) \<in> set s \<Longrightarrow> wf_value v"
  by (induction s) auto

lemma wf_props_distinct: "wf_props s \<Longrightarrow> distinct (map fst s)"
  by (induction s) (auto simp: rev_image_eqI)

lemma wf_copy_props:
  "wf_props t \<Longrightarrow> \<forall>(k, v) \<in> set s. wf_value v \<Longrightarrow> wf_props (copy_props t s)"
  unfolding copy_props_def
  by (induction s arbitrary: t) (auto simp: wf_set_prop)

lemma get_copy_props_other:
  "k \<notin> fst ` set s \<Longrightarrow> get_prop (copy_props t s) k = get_prop t k"
  unfolding copy_props_def
  by (induction s arbitrary: t) (auto simp: get_set_prop)

lemma get_copy_props_member:
  "distinct (map fst s) \<Longrightarrow> (k, v) \<in> set s \<Longrightarrow> get_prop (copy_props t s) k = v"
  unfolding copy_props_def
proof (induction s arbitrary: t)
  case Nil
  then show ?case by simp
next
  case (Cons a s)
  obtain k' v' where a: "a = (k', v')" by (cases a)
  show ?case
  proof (cases "(k, v) \<in> set s")
    case True
    with Cons show ?thesis by (simp add: a)
  next
    case False
    with Cons.prems a have kv: "k' = k" "v' = v" and notin: "k \<notin> fst ` set s" by auto
    have "get_prop (copy_props (set_prop t k v) s) k = get_prop (set_prop t k v) k"
      by (rule get_copy_props_other[OF notin])
    then show ?thesis
      by (simp add: a kv copy_props_def get_set_prop)
  qed
qed

lemma drop_undefined_id:
  "no_undefined v \<Longrightarrow> drop_undefined v = v"
  "no_undefined_props kvs \<Longrightarrow> drop_undefined_props kvs = kvs"
  by (induction v and kvs rule: drop_undefined_drop_undefined_props.induct) auto

lemma no_undefined_set_prop:
  "no_undefined_props obj \<Longrightarrow> v \<noteq> JUndefined \<Longrightarrow> no_undefined v \<Longrightarrow>
     no_undefined_props (set_prop obj k v)"
  by (induction obj) auto

lemma no_undefined_props_value:
  "no_undefined_props s \<Longrightarrow> (k, v) \<in> set s \<Longrightarrow> v \<noteq> JUndefined \<and> no_undefined v"
  by (induction s) auto

lemma no_undefined_copy_props:
  "no_undefined_props t \<Longrightarrow> no_undefined_props s \<Longrightarrow> no_undefined_props (copy_props t s)"
  unfolding copy_props_def
  by (induction s arbitrary: t) (auto simp: no_undefined_set_prop)

lemma wf_props_all: "wf_props s \<Longrightarrow> \<forall>(k, v) \<in> set s. wf_value v"
  using wf_props_value by blast

lemma wf_defaults: "wf_props (defaultInspectorOptions platform)"
  by (simp add: defaultInspectorOptions_def)

lemma no_undefined_defaults: "no_undefined_props (defaultInspectorOptions platform)"
  by (simp add: defaultInspectorOptions_def)

lemma wf_merged: "wf_setting setting \<Longrightarrow> wf_props (merged_options platform setting)"
  unfolding merged_options_def spread2_def wf_setting_def
  by (intro wf_copy_props wf_props_all wf_defaults) simp_all

lemma no_undefined_merged:
  "no_undefined_setting setting \<Longrightarrow> no_undefined_props (merged_options platform setting)"
  unfolding merged_options_def spread2_def no_undefined_setting_def
  by (intro no_undefined_copy_props no_undefined_defaults) simp_all

lemma wf_kit_appendTo: "wf_props io \<Longrightarrow> wf_props (kit_appendTo platform opts io)"
  by (auto simp: kit_appendTo_def wf_set_prop split: option.splits)

lemma no_undefined_kit_appendTo:
  "no_undefined_props io \<Longrightarrow> no_undefined_props (kit_appendTo platform opts io)"
  by (auto simp: kit_appendTo_def no_undefined_set_prop split: option.splits)

section \<open>Facts about the hooks\<close>

lemma configResolved_enabled:
  assumes "configResolved platform (svelteInspector pluginPath) config = Inr st"
    and "\<not> disabled st"
  shows "\<exists>p a opts. find_vps config = Some p \<and> api p = Some a \<and> options a = Some opts
           \<and> setting_truthy (vps_setting (Some p))
           \<and> st = \<lparr>inspectorPath = getInspectorPath pluginPath @ ''/'',
                   inspectorOptions =
                     Some (kit_appendTo platform opts
                             (merged_options platform (vps_setting (Some p)))),
                   appendTo =
                     get_prop (kit_appendTo platform opts
                                 (merged_options platform (vps_setting (Some p)))) ''appendTo'',
                   disabled = False\<rparr>"
  using assms
  by (auto simp: configResolved_def svelteInspector_def Let_def
           split: option.splits if_splits)

lemma basename_default: "basename platform ''.svelte-kit'' = ''.svelte-kit''"
  by (simp add: basename_def basename_sep_def isWindowsDeviceRoot_def)

lemma vps_setting_Some:
  assumes "vps_setting vps = Some s"
  shows "\<exists>p a opts. vps = Some p \<and> api p = Some a \<and> options a = Some opts"
  using assms by (auto simp: vps_setting_def split: option.splits)

lemma configResolved_truthy:
  assumes "find_vps config = Some p" and "api p = Some a" and "options a = Some opts"
    and "setting_truthy (vps_setting (Some p))"
  shows "configResolved platform (svelteInspector pluginPath) config =
           Inr \<lparr>inspectorPath = getInspectorPath pluginPath @ ''/'',
                inspectorOptions =
                  Some (kit_appendTo platform opts (merged_options platform (vps_setting (Some p)))),
                appendTo =
                  get_prop (kit_appendTo platform opts
                              (merged_options platform (vps_setting (Some p)))) ''appendTo'',
                disabled = False\<rparr>"
  using assms by (simp add: configResolved_def svelteInspector_def Let_def)


lemma svelte_config_resolved:
  "configResolved ''linux'' (svelteInspector ''/app/plugins/inspector'') svelte_config =
     Inr \<lparr>inspectorPath = ''/app/plugins/inspector/'',
          inspectorOptions = Some (defaultInspectorOptions ''linux'' @
             [(''appendTo'', JString ''.svelte-kit/generated/root.svelte'')]),
          appendTo = JString ''.svelte-kit/generated/root.svelte'',
          disabled = False\<rparr>"
  by code_simp

lemma load_options_text:
  "\<not> disabled st \<Longrightarrow> inspectorOptions st = Some io \<Longrightarrow>
     JSON_stringify (JObject io) = Some text \<Longrightarrow>
     load idToFile fs st options_id False = Inr (Some (''export default '' @ text))"
  by (simp add: load_def template_text_def)

lemma stringify_object: "\<exists>text. JSON_stringify (JObject io) = Some text"
  by (simp add: JSON_stringify_def)

lemma parse_loaded_options_eq:
  assumes "\<not> disabled st" and "inspectorOptions st = Some io" and "wf_props io"
  shows "parse_loaded_options idToFile fs st = Some (drop_undefined (JObject io))"
proof -
  obtain payload where t: "JSON_stringify (JObject io) = Some payload"
    using stringify_object by blast
  have l: "load idToFile fs st options_id False = Inr (Some (''export default '' @ payload))"
    using assms(1,2) t by (rule load_options_text)
  have "JSON_parse payload = Some (drop_undefined (JObject io))"
    using assms(3) t by (intro JSON_roundtrip) simp_all
  then show ?thesis
    by (simp add: parse_loaded_options_def l startsWith_def)
qed

lemma disabled_hooks_inert:
  assumes "disabled st"
  shows "resolveId st importee ssr = None"
    and "load idToFile fs st ident ssr = Inr None"
    and "transform st code ident ssr = None"
    and "transformIndexHtml st h = None"
  using assms by (simp_all add: resolveId_def load_def transform_def transformIndexHtml_def)

lemma options_id_not_path: "\<not> startsWith (path_prefix @ rest) options_id"
  by (simp add: startsWith_def)

lemma path_prefix_starts: "startsWith (path_prefix @ rest) path_prefix"
  unfolding startsWith_def by (rule prefixI) simp

lemma resolveId_path:
  assumes "\<not> disabled st"
  shows "resolveId st (path_prefix @ rest) False =
           Some (GetSubstitution path_prefix [] rest (inspectorPath st) @ rest)"
  unfolding resolveId_def
  using assms options_id_not_path[of rest] path_prefix_starts[of rest]
    replace_prefix[of path_prefix rest "inspectorPath st"]
  by (simp only: if_False if_True simp_thms)

lemma resolveId_path_plain:
  assumes "\<not> disabled st" and "CHR ''$'' \<notin> set (inspectorPath st)"
  shows "resolveId st (path_prefix @ rest) False = Some (inspectorPath st @ rest)"
  using resolveId_path[OF assms(1), of rest]
  by (simp only: GetSubstitution_plain[OF assms(2)])

lemma path_prefix_last: "last path_prefix \<noteq> CHR ''/''"
  by simp

lemma inspector_id_not_options:
  assumes "startsWith ident (base @ ''/'')"
  shows "ident \<noteq> options_id"
proof
  assume "ident = options_id"
  with assms have "prefix (base @ ''/'') options_id"
    by (simp add: startsWith_def)
  then have "set (base @ ''/'') \<subseteq> set options_id"
    by (rule set_mono_prefix)
  then have "CHR ''/'' \<in> set options_id"
    by auto
  then show False
    by simp
qed

section \<open>The properties\<close>

subsection \<open>C1: a disabled session\<close>

text \<open>
  C1 asks that in a session in which \<open>disabled\<close> is true every hook does no work: no
  virtual module is resolved and no handler acts. \<open>resolveId\<close>, \<open>load\<close>, \<open>transform\<close>
  and \<open>transformIndexHtml\<close> test the flag and answer nothing (lemma
  \<open>disabled_hooks_inert\<close>). \<open>configureServer\<close> does not test it. With no companion
  plugin in the configuration the session is disabled, and a \<open>my:from-client\<close> message
  for \<open>src/App.svelte:42:7\<close> still runs both editor commands.
\<close>

theorem disabled_session_listener_acts:
  "configResolved ''linux'' (svelteInspector ''/app/plugins/inspector'') \<lparr>plugins = []\<rparr> =
     Inr \<lparr>inspectorPath = ''/app/plugins/inspector/'', inspectorOptions = None,
          appendTo = JUndefined, disabled = True\<rparr>
   \<and> ws_receive
         (configureServer
            \<lparr>inspectorPath = ''/app/plugins/inspector/'', inspectorOptions = None,
             appendTo = JUndefined, disabled = True\<rparr>
            \<lparr>listeners = []\<rparr>)
         ''my:from-client'' (Some \<lparr>msg = Some ''src/App.svelte:42:7''\<rparr>) =
       [Inr [''nvim --server ~/.cache/nvim/server.pipe --remote src/App.svelte'',
             ''nvim --server ~/.cache/nvim/server.pipe --remote-send '' @ [CHR 0x27]
               @ ''42<s-g>'' @ [CHR 0x27]]]"
proof -
  have f: "parse_file (''src/App.svelte'' @ CHR '':'' # ''42:7'') = ''src/App.svelte''"
    by (rule parse_file_first) simp
  have r: "parse_row (''src/App.svelte'' @ CHR '':'' # ''42'' @ CHR '':'' # ''7'') =
      (if ''42'' = [] then ''0'' else ''42'')"
    by (rule parse_row_between) simp_all
  have c: "configResolved ''linux'' (svelteInspector ''/app/plugins/inspector'') \<lparr>plugins = []\<rparr> =
     Inr \<lparr>inspectorPath = ''/app/plugins/inspector/'', inspectorOptions = None,
          appendTo = JUndefined, disabled = True\<rparr>"
    by code_simp
  show ?thesis
    using f r c by (simp add: ws_receive_def configureServer_def from_client_handler_def)
qed


subsection \<open>C2: the payload parser\<close>

text \<open>
  C2, as the code has it. The file is everything before the first colon, and the
  empty text when the message has no colon. When the message has two colons or more,
  the row is everything between the first and the last of them, and \<open>0\<close> when nothing
  lies between; without any colon the row is \<open>0\<close>. So \<open>src/App.svelte:42:extra\<close> gives
  the file \<open>src/App.svelte\<close> and the row \<open>42\<close>, and \<open>onlyfile\<close> gives the empty file
  and the row \<open>0\<close>.
\<close>

theorem parse_payload:
  "(CHR '':'' \<notin> set f \<longrightarrow> parse_file (f @ CHR '':'' # rest) = f)
   \<and> (CHR '':'' \<notin> set nocolon \<longrightarrow> parse_file nocolon = [] \<and> parse_row nocolon = ''0'')
   \<and> (CHR '':'' \<notin> set f \<and> CHR '':'' \<notin> set r \<longrightarrow>
        parse_row (f @ CHR '':'' # m @ CHR '':'' # r) = (if m = [] then ''0'' else m))
   \<and> parse_file ''src/App.svelte:42:extra'' = ''src/App.svelte''
   \<and> parse_row ''src/App.svelte:42:extra'' = ''42''
   \<and> parse_file ''onlyfile'' = []
   \<and> parse_row ''onlyfile'' = ''0''"
proof -
  have "parse_file (''src/App.svelte'' @ CHR '':'' # ''42:extra'') = ''src/App.svelte''"
    by (rule parse_file_first) simp
  moreover have "parse_row (''src/App.svelte'' @ CHR '':'' # ''42'' @ CHR '':'' # ''extra'') =
      (if ''42'' = [] then ''0'' else ''42'')"
    by (rule parse_row_between) simp_all
  moreover have "parse_file ''onlyfile'' = []"
    by (rule parse_file_none) simp
  moreover have "parse_row ''onlyfile'' = ''0''"
    by (rule parse_row_none) simp
  ultimately show ?thesis
    by (simp add: parse_file_first parse_file_none parse_row_none parse_row_between)
qed

theorem parse_payload_witness:
  "CHR '':'' \<notin> set ''a.svelte'' \<and> CHR '':'' \<notin> set ''9''
   \<and> parse_file (''a.svelte'' @ CHR '':'' # ''7:3:9'') = ''a.svelte''
   \<and> CHR '':'' \<notin> set ''nocolon''
   \<and> parse_file ''nocolon'' = [] \<and> parse_row ''nocolon'' = ''0''
   \<and> parse_row (''a.svelte'' @ CHR '':'' # ''7:3'' @ CHR '':'' # ''9'') = ''7:3''"
  using parse_payload [where f = "''a.svelte''" and rest = "''7:3:9''" and nocolon = "''nocolon''"
      and r = "''9''" and m = "''7:3''"]
  by simp

theorem parse_onlyfile_counterexample:
  "parse_file ''onlyfile'' \<noteq> ''onlyfile''"
  by (simp add: parse_file_none)

subsection \<open>C3: resolving the options id\<close>

text \<open>
  C3, as the code has it. Outside server rendering and while enabled, \<open>resolveId\<close>
  answers the requested identifier itself exactly when the identifier starts with
  \<open>virtual:svelte-inspector-options\<close>: the test is \<open>startsWith\<close>, not equality, so an
  identifier that extends the options id is resolved to itself as well.
\<close>

theorem resolveId_options_prefix:
  assumes "\<not> disabled st" and "inspectorPath st = getInspectorPath pluginPath @ ''/''"
  shows "resolveId st importee False = Some importee \<longleftrightarrow> startsWith importee options_id"
proof (cases "startsWith importee options_id")
  case True
  then show ?thesis
    using assms(1) by (simp add: resolveId_def)
next
  case no: False
  show ?thesis
  proof (cases "startsWith importee path_prefix")
    case True
    then obtain rest where imp: "importee = path_prefix @ rest"
      unfolding startsWith_def by (rule prefixE)
    let ?g = "GetSubstitution path_prefix [] rest (inspectorPath st)"
    have g: "?g \<noteq> [] \<and> last ?g = CHR ''/''"
      by (rule GetSubstitution_last) (simp_all add: assms(2))
    have "?g \<noteq> path_prefix"
      using g path_prefix_last by metis
    then have "?g @ rest \<noteq> path_prefix @ rest"
      by (simp only: append_same_eq simp_thms)
    then have "resolveId st importee False \<noteq> Some importee"
      unfolding imp resolveId_path[OF assms(1)] by (simp only: option.inject simp_thms)
    with no show ?thesis
      by (simp only: simp_thms)
  next
    case False
    with no assms(1) show ?thesis
      by (simp add: resolveId_def)
  qed
qed

theorem resolveId_options_prefix_witness:
  "\<not> disabled (svelteInspector ''/app/plugins/inspector'')
   \<and> inspectorPath (svelteInspector ''/app/plugins/inspector'') =
       getInspectorPath ''/app/plugins/inspector'' @ ''/''
   \<and> resolveId (svelteInspector ''/app/plugins/inspector'') options_id False = Some options_id
   \<and> resolveId (svelteInspector ''/app/plugins/inspector'')
         ''virtual:svelte-inspector-path:load-inspector.js'' False \<noteq>
       Some ''virtual:svelte-inspector-path:load-inspector.js''"
  using resolveId_options_prefix [of "svelteInspector ''/app/plugins/inspector''"
      "''/app/plugins/inspector''" options_id]
    resolveId_options_prefix [of "svelteInspector ''/app/plugins/inspector''"
      "''/app/plugins/inspector''" "''virtual:svelte-inspector-path:load-inspector.js''"]
  by (simp add: svelteInspector_def startsWith_def)

theorem resolveId_extended_counterexample:
  "''virtual:svelte-inspector-options-extra'' \<noteq> options_id
   \<and> \<not> disabled (svelteInspector ''/app/plugins/inspector'')
   \<and> resolveId (svelteInspector ''/app/plugins/inspector'')
         ''virtual:svelte-inspector-options-extra'' False =
       Some ''virtual:svelte-inspector-options-extra''"
  by (simp add: resolveId_def svelteInspector_def startsWith_def)

subsection \<open>C4: the options module read back\<close>

text \<open>
  C4, as the code has it. In a configured session, outside server rendering, \<open>load\<close>
  of the options id answers \<open>export default\<close> followed by the JSON text of the merged
  options, and that text read back is the merged object without the properties whose
  value is \<open>undefined\<close>, which \<open>JSON.stringify\<close> leaves out. It is the merged object
  itself when the options of the user hold no such property.
\<close>

theorem load_options_roundtrip:
  assumes "configResolved platform (svelteInspector pluginPath) config = Inr st"
    and "\<not> disabled st"
    and "wf_setting (vps_setting (find_vps config))"
  shows "\<exists>merged. inspectorOptions st = Some merged
           \<and> load idToFile fs st options_id False =
               Inr (Some (''export default '' @ template_text (JSON_stringify (JObject merged))))
           \<and> parse_loaded_options idToFile fs st = Some (drop_undefined (JObject merged))
           \<and> (no_undefined_setting (vps_setting (find_vps config)) \<longrightarrow>
                parse_loaded_options idToFile fs st = Some (JObject merged))"
proof -
  from configResolved_enabled[OF assms(1,2)] obtain p a opts where
    vps: "find_vps config = Some p" and
    st: "st = \<lparr>inspectorPath = getInspectorPath pluginPath @ ''/'',
               inspectorOptions =
                 Some (kit_appendTo platform opts (merged_options platform (vps_setting (Some p)))),
               appendTo =
                 get_prop (kit_appendTo platform opts
                             (merged_options platform (vps_setting (Some p)))) ''appendTo'',
               disabled = False\<rparr>"
    by blast
  let ?m = "kit_appendTo platform opts (merged_options platform (vps_setting (Some p)))"
  have io: "inspectorOptions st = Some ?m"
    by (simp add: st)
  have wf: "wf_props ?m"
    using assms(3) by (simp add: vps wf_kit_appendTo wf_merged)
  have l: "load idToFile fs st options_id False =
      Inr (Some (''export default '' @ template_text (JSON_stringify (JObject ?m))))"
    using assms(2) by (simp add: load_def io)
  have r: "parse_loaded_options idToFile fs st = Some (drop_undefined (JObject ?m))"
    using assms(2) io wf by (rule parse_loaded_options_eq)
  have "drop_undefined (JObject ?m) = JObject ?m"
    if "no_undefined_setting (vps_setting (find_vps config))"
    using that by (simp add: vps drop_undefined_id no_undefined_kit_appendTo no_undefined_merged)
  with io l r show ?thesis
    by auto
qed

theorem load_options_roundtrip_witness:
  "configResolved ''linux'' (svelteInspector ''/app/plugins/inspector'') svelte_config =
     Inr \<lparr>inspectorPath = ''/app/plugins/inspector/'',
          inspectorOptions = Some (defaultInspectorOptions ''linux'' @
             [(''appendTo'', JString ''.svelte-kit/generated/root.svelte'')]),
          appendTo = JString ''.svelte-kit/generated/root.svelte'',
          disabled = False\<rparr>
   \<and> wf_setting (vps_setting (find_vps svelte_config))
   \<and> no_undefined_setting (vps_setting (find_vps svelte_config))
   \<and> parse_loaded_options id (\<lambda>f. None)
         \<lparr>inspectorPath = ''/app/plugins/inspector/'',
          inspectorOptions = Some (defaultInspectorOptions ''linux'' @
             [(''appendTo'', JString ''.svelte-kit/generated/root.svelte'')]),
          appendTo = JString ''.svelte-kit/generated/root.svelte'',
          disabled = False\<rparr> =
       Some (JObject (defaultInspectorOptions ''linux'' @
             [(''appendTo'', JString ''.svelte-kit/generated/root.svelte'')]))"
proof -
  have w: "wf_setting (vps_setting (find_vps svelte_config))"
    by (simp add: wf_setting_def svelte_config_def vps_config_def find_vps_def vps_setting_def)
  have n: "no_undefined_setting (vps_setting (find_vps svelte_config))"
    by (simp add: no_undefined_setting_def svelte_config_def vps_config_def find_vps_def
        vps_setting_def)
  let ?st = "\<lparr>inspectorPath = ''/app/plugins/inspector/'',
          inspectorOptions = Some (defaultInspectorOptions ''linux'' @
             [(''appendTo'', JString ''.svelte-kit/generated/root.svelte'')]),
          appendTo = JString ''.svelte-kit/generated/root.svelte'',
          disabled = False\<rparr>"
  have d: "\<not> disabled ?st"
    by simp
  from load_options_roundtrip [OF svelte_config_resolved d w, of id "\<lambda>f. None"]
  obtain merged where m: "inspectorOptions ?st = Some merged"
    and r: "no_undefined_setting (vps_setting (find_vps svelte_config)) \<longrightarrow>
        parse_loaded_options id (\<lambda>f. None) ?st = Some (JObject merged)"
    by blast
  from m have "merged = defaultInspectorOptions ''linux'' @
             [(''appendTo'', JString ''.svelte-kit/generated/root.svelte'')]"
    by simp
  with r n w svelte_config_resolved show ?thesis
    by simp
qed

theorem load_options_undefined_counterexample:
  "configResolved ''linux'' (svelteInspector ''/app/plugins/inspector'')
       (vps_config (Some (Options [(''openKey'', JUndefined)])) None) =
     Inr \<lparr>inspectorPath = ''/app/plugins/inspector/'',
          inspectorOptions =
            Some (set_prop (defaultInspectorOptions ''linux'') ''openKey'' JUndefined),
          appendTo = JUndefined,
          disabled = False\<rparr>
   \<and> parse_loaded_options id (\<lambda>f. None)
         \<lparr>inspectorPath = ''/app/plugins/inspector/'',
          inspectorOptions =
            Some (set_prop (defaultInspectorOptions ''linux'') ''openKey'' JUndefined),
          appendTo = JUndefined,
          disabled = False\<rparr> \<noteq>
       Some (JObject (set_prop (defaultInspectorOptions ''linux'') ''openKey'' JUndefined))"
proof -
  let ?st = "\<lparr>inspectorPath = ''/app/plugins/inspector/'',
          inspectorOptions =
            Some (set_prop (defaultInspectorOptions ''linux'') ''openKey'' JUndefined),
          appendTo = JUndefined,
          disabled = False\<rparr>"
  have c: "configResolved ''linux'' (svelteInspector ''/app/plugins/inspector'')
       (vps_config (Some (Options [(''openKey'', JUndefined)])) None) = Inr ?st"
    by code_simp
  have "wf_props (set_prop (defaultInspectorOptions ''linux'') ''openKey'' JUndefined)"
    by (simp add: defaultInspectorOptions_def)
  then have "parse_loaded_options id (\<lambda>f. None) ?st =
      Some (drop_undefined (JObject (set_prop (defaultInspectorOptions ''linux'') ''openKey'' JUndefined)))"
    by (intro parse_loaded_options_eq) simp_all
  then show ?thesis
    using c by (simp add: defaultInspectorOptions_def)
qed

subsection \<open>C5: one way of delivery\<close>

text \<open>
  C5. When an append target is set (a truthy \<open>appendTo\<close>: a string that is not empty),
  \<open>transformIndexHtml\<close> answers nothing for every document; when none is set,
  \<open>transform\<close> answers nothing for every file. So the two never both answer.
\<close>

theorem delivery_exclusive:
  "(truthy (appendTo st) \<longrightarrow> transformIndexHtml st h = None)
   \<and> (\<not> truthy (appendTo st) \<longrightarrow> transform st code ident ssr = None)
   \<and> \<not> (transformIndexHtml st h \<noteq> None \<and> transform st code ident ssr \<noteq> None)"
  by (simp add: transform_def transformIndexHtml_def)

theorem delivery_exclusive_witness:
  "truthy (appendTo ((svelteInspector ''/p'')\<lparr>appendTo := JString ''root.svelte''\<rparr>))
   \<and> transformIndexHtml ((svelteInspector ''/p'')\<lparr>appendTo := JString ''root.svelte''\<rparr>)
         ''<html></html>'' = None
   \<and> \<not> truthy (appendTo (svelteInspector ''/p''))
   \<and> transform (svelteInspector ''/p'') ''let x'' ''/src/root.svelte'' False = None"
  using delivery_exclusive [of "(svelteInspector ''/p'')\<lparr>appendTo := JString ''root.svelte''\<rparr>"
      "''<html></html>''" "''let x''" "''/src/root.svelte''" False]
    delivery_exclusive [of "svelteInspector ''/p''" "''<html></html>''" "''let x''"
      "''/src/root.svelte''" False]
  by (simp add: svelteInspector_def)


subsection \<open>C6: resolving the path prefix\<close>

text \<open>
  C6 asks that an identifier starting with \<open>virtual:svelte-inspector-path:\<close> resolves
  to the base directory followed by the rest of the identifier, however the directory is
  spelled. That holds when the directory has no dollar sign (lemma
  \<open>resolveId_path_plain\<close>). The directory is handed to \<open>replace\<close> as the replacement
  text, where \<open>$$\<close> means one dollar sign: for a plugin installed under \<open>/w/$$/inspector\<close>
  the loader resolves to \<open>/w/$/inspector/load-inspector.js\<close>, which does not start with
  the base directory, so \<open>load\<close> does not serve the file that is there; under the
  identifier with both dollar signs it would.
\<close>

theorem resolveId_dollar_path:
  "inspectorPath (svelteInspector ''/w/$$/inspector'') = ''/w/$$/inspector/''
   \<and> resolveId (svelteInspector ''/w/$$/inspector'')
         ''virtual:svelte-inspector-path:load-inspector.js'' False =
       Some ''/w/$/inspector/load-inspector.js''
   \<and> load id (\<lambda>f. if f = ''/w/$$/inspector/load-inspector.js'' then Some (File ''ui'') else None)
         (svelteInspector ''/w/$$/inspector'') ''/w/$/inspector/load-inspector.js'' False =
       Inr None
   \<and> load id (\<lambda>f. if f = ''/w/$$/inspector/load-inspector.js'' then Some (File ''ui'') else None)
         (svelteInspector ''/w/$$/inspector'') ''/w/$$/inspector/load-inspector.js'' False =
       Inr (Some ''ui'')"
  by code_simp

subsection \<open>C7: appending the import\<close>

text \<open>
  C7. With an append target set, while enabled and outside server rendering,
  \<open>transform\<close> answers, for a file whose identifier ends with the target, the source
  text followed by a line break and the one statement
  \<open>import 'virtual:svelte-inspector-path:load-inspector.js'\<close>, and nothing for every
  other file.
\<close>

theorem transform_append:
  assumes "\<not> disabled st" and "appendTo st = JString target" and "target \<noteq> []"
  shows "transform st code ident False =
           (if endsWith ident target
            then Some (code @ [CHR 0x0A] @ ''import '' @ [CHR 0x27] @ path_prefix
                         @ ''load-inspector.js'' @ [CHR 0x27])
            else None)"
  using assms by (simp add: transform_def inspector_import_def)

theorem transform_append_witness:
  "\<not> disabled ((svelteInspector ''/p'')\<lparr>appendTo := JString ''root.svelte''\<rparr>)
   \<and> appendTo ((svelteInspector ''/p'')\<lparr>appendTo := JString ''root.svelte''\<rparr>) =
       JString ''root.svelte''
   \<and> ''root.svelte'' \<noteq> []
   \<and> transform ((svelteInspector ''/p'')\<lparr>appendTo := JString ''root.svelte''\<rparr>)
         ''let x'' ''/app/.svelte-kit/generated/root.svelte'' False =
       Some (''let x'' @ [CHR 0x0A] @ ''import '' @ [CHR 0x27]
               @ ''virtual:svelte-inspector-path:load-inspector.js'' @ [CHR 0x27])
   \<and> transform ((svelteInspector ''/p'')\<lparr>appendTo := JString ''root.svelte''\<rparr>)
         ''let x'' ''/app/src/App.svelte'' False = None"
  using transform_append [of "(svelteInspector ''/p'')\<lparr>appendTo := JString ''root.svelte''\<rparr>"
      "''root.svelte''" "''let x''" "''/app/.svelte-kit/generated/root.svelte''"]
    transform_append [of "(svelteInspector ''/p'')\<lparr>appendTo := JString ''root.svelte''\<rparr>"
      "''root.svelte''" "''let x''" "''/app/src/App.svelte''"]
  by (simp add: svelteInspector_def endsWith_def suffix_to_prefix)

subsection \<open>C8: the default append target of a SvelteKit project\<close>

text \<open>
  C8. When the companion plugin exposes \<open>kit\<close> options and the merged options have no
  append target, \<open>configResolved\<close> sets the append target, in the options and in the
  session, to the base name of the output directory followed by
  \<open>/generated/root.svelte\<close>; without a configured output directory that is
  \<open>.svelte-kit/generated/root.svelte\<close>. No other hook changes the session.
\<close>

theorem kit_default_appendTo:
  assumes "find_vps config = Some p" and "api p = Some a" and "options a = Some opts"
    and "kit opts = Some k"
    and "setting_truthy (vps_setting (Some p))"
    and "\<not> truthy (get_prop (merged_options platform (vps_setting (Some p))) ''appendTo'')"
  shows "\<exists>st io. configResolved platform (svelteInspector pluginPath) config = Inr st
           \<and> \<not> disabled st
           \<and> appendTo st =
               JString (basename platform
                          (case outDir k of
                             None \<Rightarrow> ''.svelte-kit''
                           | Some d \<Rightarrow> if d = [] then ''.svelte-kit'' else d)
                        @ ''/generated/root.svelte'')
           \<and> inspectorOptions st = Some io
           \<and> get_prop io ''appendTo'' = appendTo st
           \<and> (outDir k = None \<longrightarrow> appendTo st = JString ''.svelte-kit/generated/root.svelte'')"
proof -
  let ?m = "merged_options platform (vps_setting (Some p))"
  have k: "kit_appendTo platform opts ?m =
      set_prop ?m ''appendTo'' (JString (kit_out_dir platform k @ ''/generated/root.svelte''))"
    using assms(4,6) by (simp add: kit_appendTo_def)
  show ?thesis
    unfolding configResolved_truthy[OF assms(1,2,3,5)] k
    by (auto simp: get_set_prop kit_out_dir_def basename_default)
qed

theorem kit_default_appendTo_witness:
  "find_vps svelte_config =
     Some \<lparr>name = ''vite-plugin-svelte'',
           api = Some \<lparr>options = Some \<lparr>experimental = Some \<lparr>nvim_inspector = Some (Flag True)\<rparr>,
                                       kit = Some \<lparr>outDir = None\<rparr>\<rparr>\<rparr>\<rparr>
   \<and> \<not> truthy (get_prop (merged_options ''linux'' (Some (Flag True))) ''appendTo'')
   \<and> (\<exists>st io. configResolved ''linux'' (svelteInspector ''/app/plugins/inspector'') svelte_config = Inr st
          \<and> \<not> disabled st
          \<and> appendTo st = JString ''.svelte-kit/generated/root.svelte''
          \<and> inspectorOptions st = Some io
          \<and> get_prop io ''appendTo'' = appendTo st)"
proof -
  let ?opts = "\<lparr>experimental = Some \<lparr>nvim_inspector = Some (Flag True)\<rparr>,
                kit = Some \<lparr>outDir = None\<rparr>\<rparr>"
  let ?a = "\<lparr>options = Some ?opts\<rparr>"
  let ?p = "\<lparr>name = ''vite-plugin-svelte'', api = Some ?a\<rparr>"
  have f: "find_vps svelte_config = Some ?p"
    by (simp add: svelte_config_def vps_config_def find_vps_def)
  have s: "vps_setting (Some ?p) = Some (Flag True)"
    by (simp add: vps_setting_def)
  have t: "setting_truthy (vps_setting (Some ?p))"
    by (simp add: s)
  have n: "\<not> truthy (get_prop (merged_options ''linux'' (vps_setting (Some ?p))) ''appendTo'')"
    by (simp add: s merged_options_def spread2_def copy_props_def defaultInspectorOptions_def)
  from kit_default_appendTo [OF f _ _ _ t n, of ?a ?opts "\<lparr>outDir = None\<rparr>" "''/app/plugins/inspector''"]
  show ?thesis
    using f n by (auto simp: s)
qed


subsection \<open>C9: loading a file of the inspector\<close>

text \<open>
  C9, as the code has it. While enabled and outside server rendering, for an
  identifier that starts with the base directory \<open>load\<close> answers the content of what
  \<open>idToFile\<close> names when a regular file is there, and nothing, without an error,
  when nothing is there. The guard before the read is \<open>existsSync\<close>, which holds of a
  directory as well, so the two cases are not all there is: the base directory itself
  is such an identifier (\<open>resolveId\<close> gives it for the bare prefix), and there the read
  fails with \<open>EISDIR\<close>.
\<close>

theorem load_inspector_file:
  assumes "\<not> disabled st" and "inspectorPath st = getInspectorPath pluginPath @ ''/''"
    and "startsWith ident (inspectorPath st)"
  shows "(fs (idToFile ident) = Some (File content) \<longrightarrow>
            load idToFile fs st ident False = Inr (Some content))
         \<and> (fs (idToFile ident) = None \<longrightarrow> load idToFile fs st ident False = Inr None)"
proof -
  have "ident \<noteq> options_id"
    using assms(3) unfolding assms(2) by (rule inspector_id_not_options)
  then show ?thesis
    using assms(1,3) by (simp add: load_def Let_def)
qed

theorem load_inspector_file_witness:
  "\<not> disabled (svelteInspector ''/app/plugins/inspector'')
   \<and> inspectorPath (svelteInspector ''/app/plugins/inspector'') =
       getInspectorPath ''/app/plugins/inspector'' @ ''/''
   \<and> startsWith ''/app/plugins/inspector/load-inspector.js''
         (inspectorPath (svelteInspector ''/app/plugins/inspector''))
   \<and> load id (\<lambda>f. if f = ''/app/plugins/inspector/load-inspector.js''
                     then Some (File ''import Inspector'') else None)
         (svelteInspector ''/app/plugins/inspector'')
         ''/app/plugins/inspector/load-inspector.js'' False = Inr (Some ''import Inspector'')
   \<and> load id (\<lambda>f. None) (svelteInspector ''/app/plugins/inspector'')
         ''/app/plugins/inspector/load-inspector.js'' False = Inr None"
proof -
  let ?st = "svelteInspector ''/app/plugins/inspector''"
  let ?ident = "''/app/plugins/inspector/load-inspector.js''"
  have d: "\<not> disabled ?st"
    by (simp add: svelteInspector_def)
  have p: "inspectorPath ?st = getInspectorPath ''/app/plugins/inspector'' @ ''/''"
    by (simp add: svelteInspector_def)
  have s: "startsWith ?ident (inspectorPath ?st)"
    by (simp add: svelteInspector_def startsWith_def getInspectorPath_def endsWith_def
        suffix_to_prefix)
  from load_inspector_file [OF d p s, of "\<lambda>f. if f = ?ident then Some (File ''import Inspector'') else None"
      id "''import Inspector''"]
    load_inspector_file [OF d p s, of "\<lambda>f. None" id]
  show ?thesis
    using d p s by simp
qed


theorem load_directory_counterexample:
  "\<not> disabled (svelteInspector ''/app/plugins/inspector'')
   \<and> resolveId (svelteInspector ''/app/plugins/inspector'') ''virtual:svelte-inspector-path:''
         False = Some ''/app/plugins/inspector/''
   \<and> startsWith ''/app/plugins/inspector/''
         (inspectorPath (svelteInspector ''/app/plugins/inspector''))
   \<and> (\<lambda>f. if f = ''/app/plugins/inspector/'' then Some Directory else None)
         (id ''/app/plugins/inspector/'') = Some Directory
   \<and> load id (\<lambda>f. if f = ''/app/plugins/inspector/'' then Some Directory else None)
         (svelteInspector ''/app/plugins/inspector'') ''/app/plugins/inspector/'' False =
       Inl EISDIR"
  by code_simp

subsection \<open>C10: the merge is shallow\<close>

text \<open>
  C10. When the options of the user hold \<open>navKeys\<close>, the merged options hold exactly
  that value under \<open>navKeys\<close>: nothing of the default \<open>navKeys\<close> is kept, so a direction
  the user left out has no key.
\<close>

theorem navKeys_shallow:
  assumes "vps_setting (find_vps config) = Some (Options user)"
    and "distinct (map fst user)"
    and "(''navKeys'', nk) \<in> set user"
  shows "\<exists>st merged. configResolved platform (svelteInspector pluginPath) config = Inr st
           \<and> \<not> disabled st
           \<and> inspectorOptions st = Some merged
           \<and> get_prop merged ''navKeys'' = nk"
proof -
  from vps_setting_Some[OF assms(1)] obtain p a opts where
    vps: "find_vps config = Some p" "api p = Some a" "options a = Some opts"
    by blast
  have s: "vps_setting (Some p) = Some (Options user)"
    using assms(1) by (simp add: vps)
  have t: "setting_truthy (vps_setting (Some p))"
    by (simp add: s)
  let ?m = "merged_options platform (vps_setting (Some p))"
  have m: "get_prop ?m ''navKeys'' = nk"
    unfolding merged_options_def spread2_def s
    using assms(2,3) by (simp add: get_copy_props_member)
  have "get_prop (kit_appendTo platform opts ?m) ''navKeys'' = nk"
    using m by (simp add: kit_appendTo_def get_set_prop split: option.splits)
  then show ?thesis
    unfolding configResolved_truthy[OF vps t] by simp
qed

theorem navKeys_shallow_witness:
  "vps_setting (find_vps (vps_config
       (Some (Options [(''navKeys'', JObject [(''parent'', JString ''w'')])])) None)) =
     Some (Options [(''navKeys'', JObject [(''parent'', JString ''w'')])])
   \<and> distinct (map fst [(''navKeys'', JObject [(''parent'', JString ''w'')])])
   \<and> (''navKeys'', JObject [(''parent'', JString ''w'')]) \<in>
       set [(''navKeys'', JObject [(''parent'', JString ''w'')])]
   \<and> (\<exists>st merged.
         configResolved ''linux'' (svelteInspector ''/app/plugins/inspector'')
           (vps_config (Some (Options [(''navKeys'', JObject [(''parent'', JString ''w'')])])) None) =
           Inr st
         \<and> \<not> disabled st
         \<and> inspectorOptions st = Some merged
         \<and> get_prop merged ''navKeys'' = JObject [(''parent'', JString ''w'')])
   \<and> get_prop [(''parent'', JString ''w'')] ''child'' = JUndefined
   \<and> get_prop (defaultInspectorOptions ''linux'') ''navKeys'' =
       JObject [(''parent'', JString ''ArrowUp''), (''child'', JString ''ArrowDown''),
                (''next'', JString ''ArrowRight''), (''prev'', JString ''ArrowLeft'')]"
proof -
  let ?user = "[(''navKeys'', JObject [(''parent'', JString ''w'')])]"
  have v: "vps_setting (find_vps (vps_config (Some (Options ?user)) None)) = Some (Options ?user)"
    by (simp add: vps_config_def find_vps_def vps_setting_def)
  have d: "distinct (map fst ?user)"
    by simp
  have i: "(''navKeys'', JObject [(''parent'', JString ''w'')]) \<in> set ?user"
    by simp
  from navKeys_shallow [OF v d i, of "''linux''" "''/app/plugins/inspector''"]
  show ?thesis
    using v by (simp add: defaultInspectorOptions_def)
qed

end
